theory Spec2Isabelle
  imports Main "HOL-Library.Sublist"
begin

section \<open>Python values used by the orchestrator\<close>

text \<open>
  The orchestrator of \<^verbatim>\<open>main.py\<close> works on Python dictionaries with string keys.
  A dictionary is an association list in insertion order (the order is what
  \<^verbatim>\<open>json.dump\<close> prints); every dictionary literal of the source has distinct keys.
  A task dictionary holds strings only (the seed \<^verbatim>\<open>{"instruction": ...}\<close>, and the
  tasks the planner and the analyzer build); a result dictionary holds strings or
  \<^verbatim>\<open>None\<close>. Characters are 8-bit code points.

  Exceptions that leave a function are values: \<open>Inl\<close> of the exception.
\<close>

datatype py_error = KeyError string | IndexError | TypeError

type_synonym task = "(string \<times> string) list"

type_synonym exec_result = "(string \<times> string option) list"

text \<open>\<^verbatim>\<open>d[k]\<close>: raises \<^verbatim>\<open>KeyError(k)\<close> when the key is missing.\<close>

definition getitem :: "(string \<times> 'v) list \<Rightarrow> string \<Rightarrow> py_error + 'v" where
  "getitem d k = (case map_of d k of None \<Rightarrow> Inl (KeyError k) | Some v \<Rightarrow> Inr v)"

text \<open>\<^verbatim>\<open>d.get(k)\<close> on a result dictionary: \<^verbatim>\<open>None\<close> when the key is missing.\<close>

definition dict_get :: "exec_result \<Rightarrow> string \<Rightarrow> string option" where
  "dict_get d k = (case map_of d k of None \<Rightarrow> None | Some v \<Rightarrow> v)"

text \<open>\<^verbatim>\<open>d.get(k, default)\<close> with a string default: the default only replaces a
  missing key, a stored \<^verbatim>\<open>None\<close> is returned as it is.\<close>

definition dict_get_default :: "exec_result \<Rightarrow> string \<Rightarrow> string \<Rightarrow> string option" where
  "dict_get_default d k dflt = (case map_of d k of None \<Rightarrow> Some dflt | Some v \<Rightarrow> v)"

text \<open>\<^verbatim>\<open>sub in s\<close> on strings.\<close>

fun py_in :: "string \<Rightarrow> string \<Rightarrow> bool" where
  "py_in sub [] = (sub = [])"
| "py_in sub (c # cs) = (prefix sub (c # cs) \<or> py_in sub cs)"

text \<open>\<^verbatim>\<open>s.lower()\<close>, on the letters A to Z. Other characters are left as they are:
  lower-casing one of them never yields a letter of the keywords the planner looks for,
  so the planner's tests are the source's.\<close>

definition lower_char :: "char \<Rightarrow> char" where
  "lower_char c =
     (case map_of (zip ''ABCDEFGHIJKLMNOPQRSTUVWXYZ'' ''abcdefghijklmnopqrstuvwxyz'') c of
        None \<Rightarrow> c
      | Some l \<Rightarrow> l)"

definition py_lower :: "string \<Rightarrow> string" where
  "py_lower s = map lower_char s"

text \<open>\<^verbatim>\<open>str(v)\<close> of a value interpolated by an f-string.\<close>

definition py_str :: "string option \<Rightarrow> string" where
  "py_str v = (case v of None \<Rightarrow> ''None'' | Some s \<Rightarrow> s)"

text \<open>\<^verbatim>\<open>sep.join(xs)\<close>.\<close>

fun join :: "string \<Rightarrow> string list \<Rightarrow> string" where
  "join sep [] = []"
| "join sep [x] = x"
| "join sep (x # y # ys) = x @ sep @ join sep (y # ys)"

section \<open>The run state\<close>

text \<open>\<^verbatim>\<open>class SecurityState(BaseModel)\<close>.\<close>

record security_state =
  task_list :: "task list"
  executed_tasks :: "exec_result list"
  scope :: "string list"
  scope_violations :: "string list"
  current_task :: "task option"
  retries :: int
  max_retries :: int

section \<open>The environment: processes, the clock, files\<close>

text \<open>
  What \<^verbatim>\<open>subprocess.run(command, shell=True, capture_output=True, text=True,
  timeout=300)\<close> does is not the program's: the process completes with a return code and
  its two captured streams, or the timeout expires, or the call raises another
  exception (\<open>Fault\<close> carries its \<^verbatim>\<open>str(e)\<close>). The environment fixes the outcome of the
  n-th spawned process and the text of the n-th reading of
  \<^verbatim>\<open>str(datetime.datetime.now())\<close>; the world records the commands spawned so far, the
  number of clock readings and the files written. Opening and writing a report file is
  taken to succeed; logging is left out.
\<close>

datatype proc_outcome = Completed int string string | TimeoutExpired | Fault string

record env =
  proc :: "nat \<Rightarrow> string \<Rightarrow> proc_outcome"
  now :: "nat \<Rightarrow> string"

record world =
  spawned :: "string list"
  clock_reads :: nat
  files :: "string \<Rightarrow> string option"

definition read_clock :: "env \<Rightarrow> world \<Rightarrow> string \<times> world" where
  "read_clock e w = (now e (clock_reads w), w\<lparr>clock_reads := Suc (clock_reads w)\<rparr>)"

definition subprocess_run :: "env \<Rightarrow> string \<Rightarrow> world \<Rightarrow> proc_outcome \<times> world" where
  "subprocess_run e command w =
     (proc e (length (spawned w)) command, w\<lparr>spawned := spawned w @ [command]\<rparr>)"

definition write_file :: "string \<Rightarrow> string \<Rightarrow> world \<Rightarrow> world" where
  "write_file path content w = w\<lparr>files := (files w)(path \<mapsto> content)\<rparr>"

section \<open>Scope enforcement\<close>

text \<open>\<^verbatim>\<open>is_within_scope\<close>: the loop returns at the first scope item that matches.\<close>

fun is_within_scope :: "string \<Rightarrow> string list \<Rightarrow> bool" where
  "is_within_scope target [] = False"
| "is_within_scope target (scope_item # rest) =
     (if py_in scope_item target \<or> py_in target scope_item then True
      else is_within_scope target rest)"

section \<open>Task execution\<close>

text \<open>\<^verbatim>\<open>execute_security_tool\<close>. The three subscripts come first, in the source's
  order; the timestamp is read when the returned dictionary is built.\<close>

definition execute_security_tool ::
  "env \<Rightarrow> task \<Rightarrow> string list \<Rightarrow> world \<Rightarrow> py_error + exec_result \<times> world" where
  "execute_security_tool e tsk scp w =
     (case getitem tsk ''command'' of Inl err \<Rightarrow> Inl err | Inr command \<Rightarrow>
     (case getitem tsk ''tool'' of Inl err \<Rightarrow> Inl err | Inr tool \<Rightarrow>
     (case getitem tsk ''target'' of Inl err \<Rightarrow> Inl err | Inr target \<Rightarrow>
        if \<not> is_within_scope target scp then
          (let violation_msg = ''Out-of-scope command attempted: '' @ command;
               (ts, w1) = read_clock e w
           in Inr ([(''tool'', Some tool), (''command'', Some command),
                    (''status'', Some ''failed''), (''error'', Some violation_msg),
                    (''timestamp'', Some ts)], w1))
        else
          (case subprocess_run e command w of
             (Completed returncode out errtxt, w1) \<Rightarrow>
               (let (ts, w2) = read_clock e w1
                in Inr ([(''tool'', Some tool), (''command'', Some command),
                         (''status'', Some (if returncode = 0 then ''success'' else ''failed'')),
                         (''output'', Some out),
                         (''error'', if returncode \<noteq> 0 then Some errtxt else None),
                         (''timestamp'', Some ts)], w2))
           | (TimeoutExpired, w1) \<Rightarrow>
               (let (ts, w2) = read_clock e w1
                in Inr ([(''tool'', Some tool), (''command'', Some command),
                         (''status'', Some ''failed''),
                         (''error'', Some ''Command timed out after 300 seconds''),
                         (''timestamp'', Some ts)], w2))
           | (Fault msg, w1) \<Rightarrow>
               (let (ts, w2) = read_clock e w1
                in Inr ([(''tool'', Some tool), (''command'', Some command),
                         (''status'', Some ''failed''),
                         (''error'', Some msg),
                         (''timestamp'', Some ts)], w2))))))"

section \<open>The graph nodes\<close>

text \<open>\<^verbatim>\<open>xs[0]\<close>: raises \<^verbatim>\<open>IndexError\<close> on the empty list.\<close>

definition first :: "'a list \<Rightarrow> py_error + 'a" where
  "first xs = (case xs of [] \<Rightarrow> Inl IndexError | x # _ \<Rightarrow> Inr x)"

definition nmap_task :: "string \<Rightarrow> task" where
  "nmap_task target =
     [(''tool'', ''nmap''), (''command'', ''nmap -p 1-1000 '' @ target),
      (''target'', target), (''status'', ''pending'')]"

definition gobuster_task :: "string \<Rightarrow> task" where
  "gobuster_task target =
     [(''tool'', ''gobuster''),
      (''command'', ''gobuster dir -u http://'' @ target @ '' -w common.txt''),
      (''target'', target), (''status'', ''pending'')]"

text \<open>\<^verbatim>\<open>plan_tasks\<close>. Each task literal reads \<^verbatim>\<open>state.scope[0]\<close> before the task list
  is touched, so an empty scope raises there.\<close>

definition plan_tasks :: "security_state \<Rightarrow> py_error + security_state" where
  "plan_tasks s =
     (case (case task_list s of [] \<Rightarrow> Inr [] | t # _ \<Rightarrow> getitem t ''instruction'') of
        Inl err \<Rightarrow> Inl err
      | Inr instruction \<Rightarrow>
     (case (if py_in ''scan'' (py_lower instruction) \<and> py_in ''ports'' (py_lower instruction)
            then (case first (scope s) of Inl err \<Rightarrow> Inl err
                  | Inr target \<Rightarrow> Inr (s\<lparr>task_list := [nmap_task target]\<rparr>))
            else Inr s) of
        Inl err \<Rightarrow> Inl err
      | Inr s1 \<Rightarrow>
     (case (if py_in ''directories'' (py_lower instruction)
            then (case first (scope s1) of Inl err \<Rightarrow> Inl err
                  | Inr target \<Rightarrow>
                      Inr (s1\<lparr>task_list := task_list s1 @ [gobuster_task target]\<rparr>))
            else Inr s1) of
        Inl err \<Rightarrow> Inl err
      | Inr s2 \<Rightarrow>
     (case first (task_list s2) of Inl err \<Rightarrow> Inl err
      | Inr t \<Rightarrow> Inr (s2\<lparr>current_task := Some t\<rparr>)))))"

text \<open>The comprehension \<^verbatim>\<open>[t for t in state.task_list if t["status"] == "pending"]\<close>:
  the subscript raises at the first task without a status.\<close>

fun pending_tasks :: "task list \<Rightarrow> py_error + task list" where
  "pending_tasks [] = Inr []"
| "pending_tasks (t # ts) =
     (case getitem t ''status'' of Inl err \<Rightarrow> Inl err
      | Inr st \<Rightarrow>
          (case pending_tasks ts of Inl err \<Rightarrow> Inl err
           | Inr ps \<Rightarrow> Inr (if st = ''pending'' then t # ps else ps)))"

text \<open>\<^verbatim>\<open>execute_task\<close>. \<^verbatim>\<open>not state.current_task\<close> holds for \<^verbatim>\<open>None\<close> and for the
  empty dictionary. \<^verbatim>\<open>"Out-of-scope" in result.get("error", "")\<close> raises
  \<^verbatim>\<open>TypeError\<close> when the result stores \<^verbatim>\<open>None\<close> under \<^verbatim>\<open>"error"\<close>; where the test
  holds, \<^verbatim>\<open>result["error"]\<close> is the string that was tested.\<close>

definition execute_task ::
  "env \<Rightarrow> security_state \<Rightarrow> world \<Rightarrow> py_error + security_state \<times> world" where
  "execute_task e s w =
     (case current_task s of
        None \<Rightarrow> Inr (s, w)
      | Some tsk \<Rightarrow>
          if tsk = [] then Inr (s, w)
          else
            (case execute_security_tool e tsk (scope s) w of
               Inl err \<Rightarrow> Inl err
             | Inr (result, w1) \<Rightarrow>
                 (let s1 = s\<lparr>executed_tasks := executed_tasks s @ [result]\<rparr> in
                  case dict_get_default result ''error'' '''' of
                    None \<Rightarrow> Inl TypeError
                  | Some errtxt \<Rightarrow>
                      (let s2 = (if py_in ''Out-of-scope'' errtxt
                                 then s1\<lparr>scope_violations := scope_violations s1 @ [errtxt]\<rparr>
                                 else s1) in
                       case pending_tasks (task_list s2) of
                         Inl err \<Rightarrow> Inl err
                       | Inr ps \<Rightarrow>
                           Inr (s2\<lparr>task_list := ps,
                                   current_task := (case ps of [] \<Rightarrow> None | t # _ \<Rightarrow> Some t)\<rparr>,
                                w1)))))"

text \<open>\<^verbatim>\<open>state.executed_tasks[-1] if state.executed_tasks else {}\<close>.\<close>

definition last_result :: "security_state \<Rightarrow> exec_result" where
  "last_result s = (if executed_tasks s = [] then [] else last (executed_tasks s))"

text \<open>\<^verbatim>\<open>analyze_and_update\<close>. Both substring tests read the same
  \<^verbatim>\<open>last_result.get("output", "")\<close>, which is \<^verbatim>\<open>None\<close> only when the result stores
  \<^verbatim>\<open>None\<close> under \<^verbatim>\<open>"output"\<close>.\<close>

definition analyze_and_update :: "security_state \<Rightarrow> py_error + security_state" where
  "analyze_and_update s =
     (if dict_get (last_result s) ''tool'' = Some ''nmap''
         \<and> dict_get (last_result s) ''status'' = Some ''success''
      then (case dict_get_default (last_result s) ''output'' '''' of
              None \<Rightarrow> Inl TypeError
            | Some out \<Rightarrow>
                if py_in ''80'' out \<or> py_in ''443'' out
                then (case first (scope s) of
                        Inl err \<Rightarrow> Inl err
                      | Inr target \<Rightarrow>
                          Inr (s\<lparr>task_list := task_list s @ [gobuster_task target]\<rparr>))
                else Inr s)
      else Inr s)"

text \<open>\<^verbatim>\<open>handle_failure\<close>, the router of the conditional edge. It returns the route
  and the state it has updated; the log line subscripts \<^verbatim>\<open>state.current_task\<close> after
  the increment.\<close>

definition handle_failure :: "security_state \<Rightarrow> py_error + security_state \<times> string" where
  "handle_failure s =
     (if dict_get (last_result s) ''status'' = Some ''failed'' \<and> retries s < max_retries s
      then (let s1 = s\<lparr>retries := retries s + 1\<rparr> in
            case current_task s1 of
              None \<Rightarrow> Inl TypeError
            | Some tsk \<Rightarrow>
                (case getitem tsk ''command'' of
                   Inl err \<Rightarrow> Inl err
                 | Inr _ \<Rightarrow> Inr (s1, ''execute'')))
      else Inr (s, ''continue''))"

section \<open>The workflow graph\<close>

text \<open>
  The graph has the nodes \<^verbatim>\<open>plan\<close>, \<^verbatim>\<open>execute\<close> and \<^verbatim>\<open>analyze\<close>, the entry point
  \<^verbatim>\<open>plan\<close>, the edges \<^verbatim>\<open>plan\<close> to \<^verbatim>\<open>execute\<close> and \<^verbatim>\<open>execute\<close> to \<^verbatim>\<open>analyze\<close>, and
  after \<^verbatim>\<open>analyze\<close> the router \<^verbatim>\<open>handle_failure\<close>, whose answer \<^verbatim>\<open>"execute"\<close> leads to
  \<^verbatim>\<open>execute\<close> and \<^verbatim>\<open>"continue"\<close> to \<^verbatim>\<open>END\<close>. The graph library is not part of the
  program; it is read as the source uses it: one state is handed from node to node, and
  the router sees that state and its update of \<^verbatim>\<open>retries\<close> is kept. An exception
  raised in a node or in the router ends the run.
\<close>

datatype node = Plan | Execute | Analyze | End

fun step ::
  "env \<Rightarrow> node \<times> security_state \<times> world \<Rightarrow> py_error + node \<times> security_state \<times> world" where
  "step e (Plan, s, w) =
     (case plan_tasks s of Inl err \<Rightarrow> Inl err | Inr s1 \<Rightarrow> Inr (Execute, s1, w))"
| "step e (Execute, s, w) =
     (case execute_task e s w of Inl err \<Rightarrow> Inl err | Inr (s1, w1) \<Rightarrow> Inr (Analyze, s1, w1))"
| "step e (Analyze, s, w) =
     (case analyze_and_update s of
        Inl err \<Rightarrow> Inl err
      | Inr s1 \<Rightarrow>
          (case handle_failure s1 of
             Inl err \<Rightarrow> Inl err
           | Inr (s2, route) \<Rightarrow> Inr (if route = ''execute'' then Execute else End, s2, w)))"
| "step e (End, s, w) = Inr (End, s, w)"

text \<open>\<^verbatim>\<open>app.invoke\<close>: the graph is stepped until it reaches \<^verbatim>\<open>END\<close> or a step raises.
  \<open>None\<close> is a run that does neither.\<close>

partial_function (option) invoke ::
  "env \<Rightarrow> node \<times> security_state \<times> world \<Rightarrow> (py_error + security_state \<times> world) option" where
  "invoke e c =
     (if fst c = End then Some (Inr (snd c))
      else (case step e c of Inl err \<Rightarrow> Some (Inl err) | Inr c1 \<Rightarrow> invoke e c1))"

text \<open>The configuration after a given number of steps, for statements about every
  point of a run.\<close>

fun steps ::
  "env \<Rightarrow> nat \<Rightarrow> node \<times> security_state \<times> world \<Rightarrow> py_error + node \<times> security_state \<times> world" where
  "steps e 0 c = Inr c"
| "steps e (Suc n) c = (case step e c of Inl err \<Rightarrow> Inl err | Inr c1 \<Rightarrow> steps e n c1)"

section \<open>Report generation\<close>

text \<open>
  \<^verbatim>\<open>json.dump(audit_report, f, indent=2)\<close> with the defaults of the standard library:
  strings are escaped to ASCII, items are separated by a comma and a new line indented by
  two spaces per level, keys by a colon and a space, and an empty list or dictionary is
  printed closed.
\<close>

datatype json = JNull | JString string | JArray "json list" | JObject "(string \<times> json) list"

definition hex_digit :: "nat \<Rightarrow> char" where
  "hex_digit n = ''0123456789abcdef'' ! (n mod 16)"

definition json_escape :: "char \<Rightarrow> string" where
  "json_escape c =
     (if c = CHR 0x5C then [CHR 0x5C, CHR 0x5C]
      else if c = CHR 0x22 then [CHR 0x5C, CHR 0x22]
      else if c = CHR 0x08 then [CHR 0x5C, CHR ''b'']
      else if c = CHR 0x0C then [CHR 0x5C, CHR ''f'']
      else if c = CHR 0x0A then [CHR 0x5C, CHR ''n'']
      else if c = CHR 0x0D then [CHR 0x5C, CHR ''r'']
      else if c = CHR 0x09 then [CHR 0x5C, CHR ''t'']
      else if (of_char c :: nat) < 32 \<or> 126 < (of_char c :: nat)
      then [CHR 0x5C, CHR ''u'', CHR ''0'', CHR ''0'',
            hex_digit (of_char c div 16), hex_digit (of_char c)]
      else [c])"

definition json_string :: "string \<Rightarrow> string" where
  "json_string s = [CHR 0x22] @ concat (map json_escape s) @ [CHR 0x22]"

definition newline_indent :: "nat \<Rightarrow> string" where
  "newline_indent level = CHR 0x0A # replicate (2 * level) CHR '' ''"

fun dumps :: "nat \<Rightarrow> json \<Rightarrow> string" where
  "dumps level JNull = ''null''"
| "dumps level (JString s) = json_string s"
| "dumps level (JArray xs) =
     (if xs = [] then ''[]''
      else ''['' @ newline_indent (Suc level)
           @ join ('','' @ newline_indent (Suc level)) (map (dumps (Suc level)) xs)
           @ newline_indent level @ '']'')"
| "dumps level (JObject kvs) =
     (if kvs = [] then ''{}''
      else ''{'' @ newline_indent (Suc level)
           @ join ('','' @ newline_indent (Suc level))
               (map (\<lambda>kv. json_string (fst kv) @ '': '' @ dumps (Suc level) (snd kv)) kvs)
           @ newline_indent level @ ''}'')"

definition json_of_result :: "exec_result \<Rightarrow> json" where
  "json_of_result r =
     JObject (map (\<lambda>kv. (fst kv, case snd kv of None \<Rightarrow> JNull | Some v \<Rightarrow> JString v)) r)"

text \<open>The dictionary \<^verbatim>\<open>audit_report\<close>, with the timestamp that was read for it.\<close>

definition audit_report :: "string \<Rightarrow> security_state \<Rightarrow> json" where
  "audit_report ts s =
     JObject [(''timestamp'', JString ts),
              (''target_scope'', JArray (map JString (scope s))),
              (''executed_tasks'', JArray (map json_of_result (executed_tasks s))),
              (''scope_violations'', JArray (map JString (scope_violations s)))]"

text \<open>\<^verbatim>\<open>os.path.join(LOGS_DIR, ...)\<close>, with the separator of a POSIX system.\<close>

definition json_path :: string where
  "json_path = ''logs/audit_report.json''"

definition md_path :: string where
  "md_path = ''logs/audit_report.md''"

text \<open>The section the Markdown report writes for one executed task. A value is falsy
  when it is missing, \<^verbatim>\<open>None\<close> or the empty string.\<close>

definition md_task :: "exec_result \<Rightarrow> py_error + string" where
  "md_task r =
     (case getitem r ''tool'' of Inl err \<Rightarrow> Inl err | Inr tool \<Rightarrow>
     (case getitem r ''command'' of Inl err \<Rightarrow> Inl err | Inr command \<Rightarrow>
     (case getitem r ''status'' of Inl err \<Rightarrow> Inl err | Inr status \<Rightarrow>
     (case getitem r ''timestamp'' of Inl err \<Rightarrow> Inl err | Inr ts \<Rightarrow>
        Inr (''### '' @ py_str tool @ '' Scan'' @ [CHR 0x0A]
             @ ''- **Command:** '' @ [CHR 0x60] @ py_str command @ [CHR 0x60, CHR 0x0A]
             @ ''- **Status:** '' @ py_str status @ [CHR 0x0A]
             @ ''- **Timestamp:** '' @ py_str ts @ [CHR 0x0A]
             @ (case dict_get r ''output'' of
                  None \<Rightarrow> []
                | Some out \<Rightarrow>
                    if out = [] then []
                    else ''- **Output:**'' @ [CHR 0x0A, CHR 0x60, CHR 0x60, CHR 0x60, CHR 0x0A]
                         @ take 500 out @ ''...''
                         @ [CHR 0x0A, CHR 0x60, CHR 0x60, CHR 0x60, CHR 0x0A])
             @ (case dict_get r ''error'' of
                  None \<Rightarrow> []
                | Some errtxt \<Rightarrow>
                    if errtxt = [] then []
                    else ''- **Error:** '' @ errtxt @ [CHR 0x0A])
             @ [CHR 0x0A])))))"

fun md_tasks :: "exec_result list \<Rightarrow> py_error + string" where
  "md_tasks [] = Inr []"
| "md_tasks (r # rs) =
     (case md_task r of Inl err \<Rightarrow> Inl err
      | Inr txt \<Rightarrow> (case md_tasks rs of Inl err \<Rightarrow> Inl err | Inr rest \<Rightarrow> Inr (txt @ rest)))"

definition md_violations :: "string list \<Rightarrow> string" where
  "md_violations vs =
     (if vs = [] then []
      else ''## Scope Violations'' @ [CHR 0x0A]
           @ concat (map (\<lambda>v. ''- '' @ v @ [CHR 0x0A]) vs))"

text \<open>\<^verbatim>\<open>generate_audit_reports\<close>: one reading of the clock, then the JSON file, then the
  Markdown file. A \<^verbatim>\<open>KeyError\<close> while the Markdown file is written leaves the function
  as an exception.\<close>

definition generate_audit_reports :: "env \<Rightarrow> security_state \<Rightarrow> world \<Rightarrow> py_error + world" where
  "generate_audit_reports e s w =
     (let (ts, w1) = read_clock e w;
          w2 = write_file json_path (dumps 0 (audit_report ts s)) w1
      in case md_tasks (executed_tasks s) of
           Inl err \<Rightarrow> Inl err
         | Inr sections \<Rightarrow>
             Inr (write_file md_path
                    (''# Cybersecurity Audit Report'' @ [CHR 0x0A, CHR 0x0A]
                     @ ''**Generated:** '' @ ts @ [CHR 0x0A]
                     @ ''**Target Scope:** '' @ join '', '' (scope s) @ [CHR 0x0A, CHR 0x0A]
                     @ ''## Executed Tasks'' @ [CHR 0x0A]
                     @ sections
                     @ md_violations (scope_violations s))
                    w2))"

section \<open>The entry point\<close>

definition initial_state :: "string \<Rightarrow> string list \<Rightarrow> security_state" where
  "initial_state instruction scp =
     \<lparr>task_list = [[(''instruction'', instruction)]], executed_tasks = [], scope = scp,
      scope_violations = [], current_task = None, retries = 0, max_retries = 3\<rparr>"

text \<open>\<^verbatim>\<open>run_security_scan\<close>: the graph is run from \<^verbatim>\<open>plan\<close> on the initial state, the
  reports are written for the final state, and the final state is returned.\<close>

definition run_security_scan ::
  "env \<Rightarrow> string \<Rightarrow> string list \<Rightarrow> world \<Rightarrow> (py_error + security_state \<times> world) option" where
  "run_security_scan e instruction scp w =
     (case invoke e (Plan, initial_state instruction scp, w) of
        None \<Rightarrow> None
      | Some (Inl err) \<Rightarrow> Some (Inl err)
      | Some (Inr (s, w1)) \<Rightarrow>
          (case generate_audit_reports e s w1 of
             Inl err \<Rightarrow> Some (Inl err)
           | Inr w2 \<Rightarrow> Some (Inr (s, w2))))"

section \<open>Calling the report builder twice\<close>

text \<open>The JSON report on disk after one call of \<^verbatim>\<open>generate_audit_reports\<close>, and after a
  second call on the same state in the world the first call left. \<open>None\<close> when a call
  raises.\<close>

definition first_report :: "env \<Rightarrow> security_state \<Rightarrow> world \<Rightarrow> string option" where
  "first_report e s w =
     (case generate_audit_reports e s w of Inl err \<Rightarrow> None | Inr w1 \<Rightarrow> files w1 json_path)"

definition second_report :: "env \<Rightarrow> security_state \<Rightarrow> world \<Rightarrow> string option" where
  "second_report e s w =
     (case generate_audit_reports e s w of
        Inl err \<Rightarrow> None
      | Inr w1 \<Rightarrow>
          (case generate_audit_reports e s w1 of
             Inl err \<Rightarrow> None
           | Inr w2 \<Rightarrow> files w2 json_path))"

section \<open>Concrete environments and states\<close>

text \<open>A clock whose readings differ from one reading to the next.\<close>

definition clock_text :: "nat \<Rightarrow> string" where
  "clock_text n = ''2024-05-01 10:00:0'' @ [''0123456789'' ! (n mod 10)]"

text \<open>An environment in which the shell does not find the tool: every process ends with
  return code 127.\<close>

definition env_tool_missing :: env where
  "env_tool_missing =
     \<lparr>proc = (\<lambda>n command. Completed 127 [] ''/bin/sh: 1: nmap: not found''),
      now = clock_text\<rparr>"

text \<open>An environment in which every process succeeds and reports an open web port.\<close>

definition env_port_open :: env where
  "env_port_open =
     \<lparr>proc = (\<lambda>n command. Completed 0 ''443/tcp open https'' []), now = clock_text\<rparr>"

text \<open>The same environment with a clock that always reads the same.\<close>

definition env_frozen_clock :: env where
  "env_frozen_clock =
     \<lparr>proc = (\<lambda>n command. Completed 127 [] ''/bin/sh: 1: nmap: not found''),
      now = (\<lambda>n. ''2024-05-01 10:00:00'')\<rparr>"

definition world0 :: world where
  "world0 = \<lparr>spawned = [], clock_reads = 0, files = (\<lambda>path. None)\<rparr>"

text \<open>The state the planner produces for the instruction of the program's own
  \<^verbatim>\<open>__main__\<close> block.\<close>

definition planned_state :: security_state where
  "planned_state =
     \<lparr>task_list = [nmap_task ''example.com'', gobuster_task ''example.com''],
      executed_tasks = [], scope = [''example.com''], scope_violations = [],
      current_task = Some (nmap_task ''example.com''), retries = 0, max_retries = 3\<rparr>"

text \<open>A state whose current task targets a host outside the scope.\<close>

definition evil_state :: security_state where
  "evil_state =
     \<lparr>task_list = [nmap_task ''evil.org''],
      executed_tasks = [], scope = [''example.com''], scope_violations = [],
      current_task = Some (nmap_task ''evil.org''), retries = 0, max_retries = 3\<rparr>"

text \<open>The result of a port scan that the shell could not start, and the state and world
  at the end of a run in which every attempt fails that way.\<close>

definition failed_nmap_result :: "string \<Rightarrow> exec_result" where
  "failed_nmap_result ts =
     [(''tool'', Some ''nmap''), (''command'', Some ''nmap -p 1-1000 example.com''),
      (''status'', Some ''failed''), (''output'', Some []),
      (''error'', Some ''/bin/sh: 1: nmap: not found''), (''timestamp'', Some ts)]"

definition failed_scan_state :: security_state where
  "failed_scan_state =
     \<lparr>task_list = [nmap_task ''example.com''],
      executed_tasks =
        [failed_nmap_result ''2024-05-01 10:00:00'', failed_nmap_result ''2024-05-01 10:00:01'',
         failed_nmap_result ''2024-05-01 10:00:02'', failed_nmap_result ''2024-05-01 10:00:03''],
      scope = [''example.com''], scope_violations = [],
      current_task = Some (nmap_task ''example.com''), retries = 3, max_retries = 3\<rparr>"

definition failed_scan_world :: world where
  "failed_scan_world =
     \<lparr>spawned = [''nmap -p 1-1000 example.com'', ''nmap -p 1-1000 example.com'',
                 ''nmap -p 1-1000 example.com'', ''nmap -p 1-1000 example.com''],
      clock_reads = 4, files = (\<lambda>path. None)\<rparr>"

text \<open>A successful port scan that mentions port 443, and a directory search that the
  shell could not start.\<close>

definition port_open_result :: exec_result where
  "port_open_result =
     [(''tool'', Some ''nmap''), (''command'', Some ''nmap -p 1-1000 example.com''),
      (''status'', Some ''success''), (''output'', Some ''443/tcp open https''),
      (''error'', None), (''timestamp'', Some ''2024-05-01 10:00:01'')]"

definition failed_gobuster_result :: exec_result where
  "failed_gobuster_result =
     [(''tool'', Some ''gobuster''),
      (''command'', Some ''gobuster dir -u http://example.com -w common.txt''),
      (''status'', Some ''failed''), (''output'', Some []),
      (''error'', Some ''/bin/sh: 1: gobuster: not found''),
      (''timestamp'', Some ''2024-05-01 10:00:02'')]"

text \<open>A state whose most recent result is the successful port scan, after an earlier
  failed one; and a state in which the successful port scan is the older result and the
  most recent one is the failed directory search.\<close>

definition port_open_state :: security_state where
  "port_open_state =
     \<lparr>task_list = [nmap_task ''example.com''],
      executed_tasks = [failed_nmap_result ''2024-05-01 10:00:00'', port_open_result],
      scope = [''example.com''], scope_violations = [],
      current_task = Some (nmap_task ''example.com''), retries = 1, max_retries = 3\<rparr>"

definition stale_port_state :: security_state where
  "stale_port_state =
     \<lparr>task_list = [gobuster_task ''example.com''],
      executed_tasks = [port_open_result, failed_gobuster_result],
      scope = [''example.com''], scope_violations = [],
      current_task = Some (gobuster_task ''example.com''), retries = 0, max_retries = 3\<rparr>"

section \<open>Substring search\<close>

lemma py_in_sublist: "py_in sub s = sublist sub s"
  by (induction s) (simp_all add: sublist_Cons_right)

lemma py_in_iff: "py_in sub s \<longleftrightarrow> (\<exists>u v. s = u @ sub @ v)"
  by (simp add: py_in_sublist sublist_def)

section \<open>The scope guard\<close>

text \<open>
  Claim C2. For every target \<open>t\<close> and every scope list \<open>S\<close>, \<open>is_within_scope t S\<close>
  holds exactly when some element of \<open>S\<close> occurs in \<open>t\<close> as a substring or \<open>t\<close> occurs
  in some element of \<open>S\<close> as a substring; for the empty scope list it is false for every
  target.
\<close>

theorem within_scope_iff:
  "(is_within_scope t S \<longleftrightarrow>
      (\<exists>x \<in> set S. (\<exists>u v. t = u @ x @ v) \<or> (\<exists>u v. x = u @ t @ v)))
   \<and> \<not> is_within_scope t []"
proof -
  have "is_within_scope t S \<longleftrightarrow> (\<exists>x \<in> set S. py_in x t \<or> py_in t x)"
    by (induction S) auto
  then show ?thesis
    by (simp add: py_in_iff)
qed

theorem within_scope_iff_witness:
  "\<exists>x \<in> set [''example.com''].
     (\<exists>u v. ''api.example.com'' = u @ x @ v) \<or> (\<exists>u v. x = u @ ''api.example.com'' @ v)"
proof -
  let ?t = "''api.example.com''" and ?x = "''example.com''"
  have inside: "is_within_scope ?t [?x]"
    by simp
  from within_scope_iff [of ?t "[?x]"]
  have "is_within_scope ?t [?x]
      \<longleftrightarrow> (\<exists>x \<in> set [?x]. (\<exists>u v. ?t = u @ x @ v) \<or> (\<exists>u v. x = u @ ?t @ v))"
    by (rule conjunct1)
  then show ?thesis
    using inside by (rule iffD1)
qed

section \<open>Evaluating the nodes\<close>

lemmas eval_defs =
  plan_tasks_def initial_state_def getitem_def py_lower_def lower_char_def first_def
  execute_task_def execute_security_tool_def nmap_task_def gobuster_task_def
  subprocess_run_def read_clock_def dict_get_default_def dict_get_def last_result_def
  analyze_and_update_def handle_failure_def clock_text_def

lemma py_in_refl: "py_in s s"
  by (simp add: py_in_sublist)

lemma py_in_lower: "py_in k s \<Longrightarrow> py_in (py_lower k) (py_lower s)"
proof -
  assume "py_in k s"
  then obtain u v where "s = u @ k @ v"
    by (auto simp: py_in_iff)
  then have "py_lower s = py_lower u @ py_lower k @ py_lower v"
    by (simp add: py_lower_def)
  then show ?thesis
    unfolding py_in_iff by blast
qed

lemma py_in_append: "py_in p (p @ rest)"
  unfolding py_in_iff by (rule exI [of _ "[]"], rule exI [of _ rest]) simp

lemma in_own_scope: "is_within_scope target (target # rest)"
  by (simp add: py_in_refl)

lemma pending_tasks_filter:
  "pending_tasks ts = Inr ps \<Longrightarrow> ps = filter (\<lambda>t. map_of t ''status'' = Some ''pending'') ts"
  by (induction ts arbitrary: ps) (auto simp: getitem_def split: option.splits sum.splits if_splits)

lemma pending_tasks_total:
  "\<forall>t \<in> set ts. map_of t ''status'' \<noteq> None \<Longrightarrow> \<exists>ps. pending_tasks ts = Inr ps"
  by (induction ts) (auto simp: getitem_def)

text \<open>The tool runner itself returns a result for every task that has a command, a
  tool and a target, whatever the process does.\<close>

lemma execute_security_tool_total:
  assumes "map_of tsk ''command'' \<noteq> None" and "map_of tsk ''tool'' \<noteq> None"
    and "map_of tsk ''target'' \<noteq> None"
  shows "\<exists>r w1. execute_security_tool e tsk scp w = Inr (r, w1)"
  using assms
  by (auto simp: execute_security_tool_def getitem_def read_clock_def subprocess_run_def
      split: proc_outcome.splits)

section \<open>Unfolding the graph\<close>

lemma invoke_End: "invoke e (End, s, w) = Some (Inr (s, w))"
  by (subst invoke.simps) simp

lemma invoke_Plan:
  "invoke e (Plan, s, w) =
     (case plan_tasks s of Inl err \<Rightarrow> Some (Inl err) | Inr s1 \<Rightarrow> invoke e (Execute, s1, w))"
  by (subst invoke.simps) (simp split: sum.splits)

lemma invoke_Execute:
  "invoke e (Execute, s, w) =
     (case execute_task e s w of
        Inl err \<Rightarrow> Some (Inl err)
      | Inr (s1, w1) \<Rightarrow> invoke e (Analyze, s1, w1))"
  by (subst invoke.simps) (simp split: sum.splits prod.splits)

lemma invoke_Analyze:
  "invoke e (Analyze, s, w) =
     (case analyze_and_update s of
        Inl err \<Rightarrow> Some (Inl err)
      | Inr s1 \<Rightarrow>
          (case handle_failure s1 of
             Inl err \<Rightarrow> Some (Inl err)
           | Inr (s2, route) \<Rightarrow> invoke e (if route = ''execute'' then Execute else End, s2, w)))"
  by (subst invoke.simps) (simp split: sum.splits prod.splits)

lemma execute_task_retries:
  "execute_task e s w = Inr (s1, w1) \<Longrightarrow> retries s1 = retries s \<and> max_retries s1 = max_retries s"
  by (auto simp: execute_task_def Let_def split: option.splits if_splits sum.splits prod.splits)

lemma analyze_retries:
  "analyze_and_update s = Inr s1 \<Longrightarrow> retries s1 = retries s \<and> max_retries s1 = max_retries s"
  by (auto simp: analyze_and_update_def split: option.splits if_splits sum.splits)

lemma plan_retries:
  "plan_tasks s = Inr s1 \<Longrightarrow> retries s1 = retries s \<and> max_retries s1 = max_retries s"
  by (auto simp: plan_tasks_def split: option.splits if_splits sum.splits list.splits)

lemma handle_failure_route:
  "handle_failure s = Inr (s1, route) \<Longrightarrow>
     (route = ''execute'' \<and> retries s < max_retries s \<and> s1 = s\<lparr>retries := retries s + 1\<rparr>)
     \<or> (route = ''continue'' \<and> s1 = s)"
  by (auto simp: handle_failure_def Let_def split: option.splits if_splits sum.splits)

text \<open>The loop halts: every return to \<^verbatim>\<open>execute\<close> has used one of the retries that
  were left.\<close>

lemma invoke_Execute_total: "\<exists>r. invoke e (Execute, s, w) = Some r"
proof (induction "nat (max_retries s - retries s)" arbitrary: s w rule: less_induct)
  case less
  show ?case
  proof (cases "execute_task e s w")
    case (Inl err)
    then show ?thesis by (simp add: invoke_Execute)
  next
    case (Inr p)
    obtain s1 w1 where p: "p = (s1, w1)" by (cases p)
    from Inr p have r1: "retries s1 = retries s" "max_retries s1 = max_retries s"
      using execute_task_retries by blast+
    show ?thesis
    proof (cases "analyze_and_update s1")
      case (Inl err)
      with Inr p show ?thesis by (simp add: invoke_Execute invoke_Analyze)
    next
      case a: (Inr s2)
      then have r2: "retries s2 = retries s1" "max_retries s2 = max_retries s1"
        using analyze_retries by blast+
      show ?thesis
      proof (cases "handle_failure s2")
        case (Inl err)
        with Inr p a show ?thesis by (simp add: invoke_Execute invoke_Analyze)
      next
        case h: (Inr q)
        obtain s3 route where q: "q = (s3, route)" by (cases q)
        from handle_failure_route [of s2 s3 route] h q
        consider "route = ''execute''" "retries s2 < max_retries s2" "s3 = s2\<lparr>retries := retries s2 + 1\<rparr>"
          | "route = ''continue''" "s3 = s2" by auto
        then show ?thesis
        proof cases
          case 1
          then have "nat (max_retries s3 - retries s3) < nat (max_retries s - retries s)"
            using r1 r2 by simp
          from less [OF this] obtain r where "invoke e (Execute, s3, w1) = Some r" by blast
          with Inr p a h q 1 show ?thesis by (simp add: invoke_Execute invoke_Analyze)
        next
          case 2
          with Inr p a h q show ?thesis by (simp add: invoke_Execute invoke_Analyze invoke_End)
        qed
      qed
    qed
  qed
qed

lemma invoke_total: "\<exists>r. invoke e (Plan, s, w) = Some r"
  using invoke_Execute_total by (cases "plan_tasks s") (simp_all add: invoke_Plan)

lemma step_retries:
  assumes "step e (nd, s, w) = Inr (nd1, s1, w1)" and "retries s \<le> max_retries s"
  shows "retries s1 \<le> max_retries s1"
proof (cases nd)
  case Plan
  with assms show ?thesis
    by (auto split: sum.splits dest: plan_retries)
next
  case Execute
  with assms show ?thesis
    by (auto split: sum.splits prod.splits dest: execute_task_retries)
next
  case Analyze
  with assms obtain s2 route where a: "analyze_and_update s = Inr s2"
    and h: "handle_failure s2 = Inr (s1, route)"
    by (auto split: sum.splits prod.splits)
  from analyze_retries [OF a] assms(2) have "retries s2 \<le> max_retries s2"
    by simp
  with handle_failure_route [OF h] show ?thesis
    by auto
next
  case End
  with assms show ?thesis
    by simp
qed

lemma steps_retries:
  "steps e n (nd, s, w) = Inr (nd1, s1, w1) \<Longrightarrow> retries s \<le> max_retries s
   \<Longrightarrow> retries s1 \<le> max_retries s1"
proof (induction n arbitrary: nd s w)
  case 0
  then show ?case by simp
next
  case (Suc n)
  from Suc.prems(1) obtain nd2 s2 w2 where st: "step e (nd, s, w) = Inr (nd2, s2, w2)"
    and rest: "steps e n (nd2, s2, w2) = Inr (nd1, s1, w1)"
    by (auto split: sum.splits)
  from step_retries [OF st Suc.prems(2)] have "retries s2 \<le> max_retries s2" .
  with Suc.IH [OF rest] show ?case .
qed

lemma invoke_steps_aux:
  assumes "invoke e0 c0 = Some y0"
  shows "\<forall>s w. y0 = Inr (s, w) \<longrightarrow> (\<exists>n. steps e0 n c0 = Inr (End, s, w))"
proof (rule invoke.raw_induct
    [where P = "\<lambda>e c y. \<forall>s w. y = Inr (s, w) \<longrightarrow> (\<exists>n. steps e n c = Inr (End, s, w))",
      OF _ assms])
  fix approx e c y
  assume IH: "\<And>e c y. approx e c = Some y
      \<Longrightarrow> \<forall>s w. y = Inr (s, w) \<longrightarrow> (\<exists>n. steps e n c = Inr (End, s, w))"
    and eq: "(if fst c = End then Some (Inr (snd c))
        else case step e c of Inl err \<Rightarrow> Some (Inl err) | Inr c1 \<Rightarrow> approx e c1) = Some y"
  show "\<forall>s w. y = Inr (s, w) \<longrightarrow> (\<exists>n. steps e n c = Inr (End, s, w))"
  proof (intro allI impI)
    fix s w
    assume y: "y = Inr (s, w)"
    show "\<exists>n. steps e n c = Inr (End, s, w)"
    proof (cases "fst c = End")
      case True
      with eq y have "c = (End, s, w)"
        by (cases c) auto
      then have "steps e 0 c = Inr (End, s, w)"
        by simp
      then show ?thesis ..
    next
      case False
      with eq y obtain c1 where st: "step e c = Inr c1" and run: "approx e c1 = Some (Inr (s, w))"
        by (auto split: sum.splits)
      from IH [OF run] obtain n where "steps e n c1 = Inr (End, s, w)"
        by blast
      with st have "steps e (Suc n) c = Inr (End, s, w)"
        by simp
      then show ?thesis ..
    qed
  qed
qed

lemma invoke_steps:
  "invoke e c = Some (Inr (s, w)) \<Longrightarrow> \<exists>n. steps e n c = Inr (End, s, w)"
  using invoke_steps_aux by blast

section \<open>A run in which every attempt fails\<close>

lemma failed_scan_steps:
  "steps env_tool_missing (Suc (Suc (Suc (Suc (Suc (Suc (Suc (Suc (Suc 0)))))))))
     (Plan, initial_state ''scan ports'' [''example.com''], world0)
   = Inr (End, failed_scan_state, failed_scan_world)"
  by (simp add: eval_defs env_tool_missing_def world0_def failed_scan_state_def
      failed_scan_world_def failed_nmap_result_def)

lemma failed_scan_invoke:
  "invoke env_tool_missing (Plan, initial_state ''scan ports'' [''example.com''], world0)
   = Some (Inr (failed_scan_state, failed_scan_world))"
  by (simp add: invoke_Plan invoke_Execute invoke_Analyze invoke_End
      eval_defs env_tool_missing_def world0_def failed_scan_state_def
      failed_scan_world_def failed_nmap_result_def)

section \<open>The reports\<close>

lemma md_task_total:
  assumes "map_of r ''tool'' \<noteq> None" and "map_of r ''command'' \<noteq> None"
    and "map_of r ''status'' \<noteq> None" and "map_of r ''timestamp'' \<noteq> None"
  shows "\<exists>body. md_task r = Inr body"
  using assms by (auto simp: md_task_def getitem_def)

lemma md_tasks_total:
  assumes "\<forall>r \<in> set rs. map_of r ''tool'' \<noteq> None \<and> map_of r ''command'' \<noteq> None
             \<and> map_of r ''status'' \<noteq> None \<and> map_of r ''timestamp'' \<noteq> None"
  shows "\<exists>body. md_tasks rs = Inr body"
  using assms
proof (induction rs)
  case Nil
  then show ?case by simp
next
  case (Cons r rs)
  then obtain rest where "md_tasks rs = Inr rest"
    by auto
  moreover from Cons.prems obtain body where "md_task r = Inr body"
    using md_task_total [of r] by auto
  ultimately show ?case
    by simp
qed

lemma paths_differ: "json_path \<noteq> md_path"
  by (simp add: json_path_def md_path_def)

lemma generate_audit_reports_Inr:
  assumes "generate_audit_reports e s w = Inr w1"
  shows "files w1 json_path = Some (dumps 0 (audit_report (now e (clock_reads w)) s))"
    and "clock_reads w1 = Suc (clock_reads w)"
    and "spawned w1 = spawned w"
    and "\<exists>body. md_tasks (executed_tasks s) = Inr body"
  using assms paths_differ
  by (auto simp: generate_audit_reports_def read_clock_def write_file_def split: sum.splits)

lemma generate_audit_reports_total:
  assumes "md_tasks (executed_tasks s) = Inr body"
  shows "\<exists>w1. generate_audit_reports e s w = Inr w1"
  using assms by (simp add: generate_audit_reports_def read_clock_def)

lemma dumps_audit_report:
  "\<exists>rest. \<forall>ts. dumps 0 (audit_report ts s)
     = ''{'' @ newline_indent (Suc 0) @ json_string ''timestamp'' @ '': '' @ json_string ts @ rest"
proof -
  let ?sep = "'','' @ newline_indent (Suc 0)"
  let ?rest = "?sep @ json_string ''target_scope'' @ '': ''
      @ dumps (Suc 0) (JArray (map JString (scope s)))
      @ ?sep @ json_string ''executed_tasks'' @ '': ''
      @ dumps (Suc 0) (JArray (map json_of_result (executed_tasks s)))
      @ ?sep @ json_string ''scope_violations'' @ '': ''
      @ dumps (Suc 0) (JArray (map JString (scope_violations s)))
      @ newline_indent 0 @ ''}''"
  have "\<forall>ts. dumps 0 (audit_report ts s)
     = ''{'' @ newline_indent (Suc 0) @ json_string ''timestamp'' @ '': '' @ json_string ts @ ?rest"
    by (simp add: audit_report_def del: dumps.simps(3)) 
  then show ?thesis ..
qed

lemma report_texts:
  assumes "first_report e s w \<noteq> None"
  shows "first_report e s w = Some (dumps 0 (audit_report (now e (clock_reads w)) s))"
    and "second_report e s w = Some (dumps 0 (audit_report (now e (Suc (clock_reads w))) s))"
proof -
  from assms obtain w1 where g1: "generate_audit_reports e s w = Inr w1"
    by (auto simp: first_report_def split: sum.splits)
  from generate_audit_reports_Inr(4) [OF g1] obtain body where "md_tasks (executed_tasks s) = Inr body" ..
  from generate_audit_reports_total [OF this] obtain w2 where g2: "generate_audit_reports e s w1 = Inr w2" ..
  from g1 generate_audit_reports_Inr(1) [OF g1]
  show "first_report e s w = Some (dumps 0 (audit_report (now e (clock_reads w)) s))"
    by (simp add: first_report_def)
  from g1 g2 generate_audit_reports_Inr(1) [OF g2] generate_audit_reports_Inr(2) [OF g1]
  show "second_report e s w = Some (dumps 0 (audit_report (now e (Suc (clock_reads w))) s))"
    by (simp add: second_report_def)
qed

lemma failed_scan_report: "\<exists>w2. generate_audit_reports e failed_scan_state w = Inr w2"
proof -
  have "\<exists>body. md_tasks (executed_tasks failed_scan_state) = Inr body"
    by (rule md_tasks_total) (simp add: failed_scan_state_def failed_nmap_result_def)
  then show ?thesis
    using generate_audit_reports_total by blast
qed

lemma failed_scan_first_report: "first_report e failed_scan_state w \<noteq> None"
proof -
  obtain w2 where g: "generate_audit_reports e failed_scan_state w = Inr w2"
    using failed_scan_report by blast
  from generate_audit_reports_Inr(1) [OF g] g show ?thesis
    by (simp add: first_report_def)
qed

section \<open>Rejection of out-of-scope tasks\<close>

text \<open>
  Claim C1. When the target of the current task fails the scope guard, the tool runner
  returns a result with status \<^verbatim>\<open>failed\<close> whose error is
  \<^verbatim>\<open>"Out-of-scope command attempted: "\<close> followed by the task's command, no process
  is spawned, and the \<^verbatim>\<open>execute\<close> node appends that result to the executed tasks and
  exactly that message to the scope violations. The task has a command, a tool and a
  target, and every listed task has a status.
\<close>

theorem out_of_scope_rejected:
  assumes "current_task s = Some tsk"
    and "map_of tsk ''command'' = Some command"
    and "map_of tsk ''tool'' = Some tool"
    and "map_of tsk ''target'' = Some target"
    and "\<not> is_within_scope target (scope s)"
    and "\<forall>t \<in> set (task_list s). map_of t ''status'' \<noteq> None"
  shows "\<exists>r w1 s1.
      execute_security_tool e tsk (scope s) w = Inr (r, w1)
      \<and> map_of r ''status'' = Some (Some ''failed'')
      \<and> map_of r ''error'' = Some (Some (''Out-of-scope command attempted: '' @ command))
      \<and> spawned w1 = spawned w
      \<and> execute_task e s w = Inr (s1, w1)
      \<and> executed_tasks s1 = executed_tasks s @ [r]
      \<and> scope_violations s1
          = scope_violations s @ [''Out-of-scope command attempted: '' @ command]"
proof -
  let ?msg = "''Out-of-scope command attempted: '' @ command"
  let ?r = "[(''tool'', Some tool), (''command'', Some command), (''status'', Some ''failed''),
             (''error'', Some ?msg), (''timestamp'', Some (now e (clock_reads w)))]"
  let ?w1 = "w\<lparr>clock_reads := Suc (clock_reads w)\<rparr>"
  from assms(2) have nonempty: "tsk \<noteq> []"
    by auto
  have tool: "execute_security_tool e tsk (scope s) w = Inr (?r, ?w1)"
    using assms(2-5) by (simp add: execute_security_tool_def getitem_def read_clock_def)
  from pending_tasks_total [OF assms(6)] obtain ps where ps: "pending_tasks (task_list s) = Inr ps" ..
  have hit: "py_in ''Out-of-scope'' ?msg"
    using py_in_append [of "''Out-of-scope''" "'' command attempted: '' @ command"] by simp
  let ?s1 = "s\<lparr>executed_tasks := executed_tasks s @ [?r],
                scope_violations := scope_violations s @ [?msg],
                task_list := ps,
                current_task := (case ps of [] \<Rightarrow> None | t # _ \<Rightarrow> Some t)\<rparr>"
  have node: "execute_task e s w = Inr (?s1, ?w1)"
    using assms(1) nonempty tool ps hit
    by (simp add: execute_task_def dict_get_default_def del: py_in.simps)
  show ?thesis
    by (rule exI [of _ ?r], rule exI [of _ ?w1], rule exI [of _ ?s1]) (simp add: tool node)
qed

theorem out_of_scope_rejected_witness:
  "\<exists>r w1 s1.
      execute_security_tool env_port_open (nmap_task ''evil.org'') [''example.com''] world0 = Inr (r, w1)
      \<and> map_of r ''status'' = Some (Some ''failed'')
      \<and> map_of r ''error'' = Some (Some ''Out-of-scope command attempted: nmap -p 1-1000 evil.org'')
      \<and> spawned w1 = []
      \<and> execute_task env_port_open evil_state world0 = Inr (s1, w1)
      \<and> executed_tasks s1 = [r]
      \<and> scope_violations s1 = [''Out-of-scope command attempted: nmap -p 1-1000 evil.org'']"
proof -
  have h1: "current_task evil_state = Some (nmap_task ''evil.org'')"
    by (simp add: evil_state_def)
  have h2: "map_of (nmap_task ''evil.org'') ''command'' = Some ''nmap -p 1-1000 evil.org''"
    and h3: "map_of (nmap_task ''evil.org'') ''tool'' = Some ''nmap''"
    and h4: "map_of (nmap_task ''evil.org'') ''target'' = Some ''evil.org''"
    by (simp_all add: nmap_task_def)
  have h5: "\<not> is_within_scope ''evil.org'' (scope evil_state)"
    by (simp add: evil_state_def)
  have h6: "\<forall>t \<in> set (task_list evil_state). map_of t ''status'' \<noteq> None"
    by (simp add: evil_state_def nmap_task_def)
  from out_of_scope_rejected [OF h1 h2 h3 h4 h5 h6, of env_port_open world0]
  show ?thesis
    by (simp add: evil_state_def world0_def)
qed

section \<open>Runs that raise\<close>

lemma execute_task_success_raises:
  assumes "current_task s = Some tsk"
    and "map_of tsk ''command'' = Some command"
    and "map_of tsk ''tool'' = Some tool"
    and "map_of tsk ''target'' = Some target"
    and "is_within_scope target (scope s)"
    and "proc e (length (spawned w)) command = Completed 0 out errtxt"
  shows "execute_task e s w = Inl TypeError"
proof -
  from assms(2) have "tsk \<noteq> []"
    by auto
  with assms show ?thesis
    by (simp add: execute_task_def execute_security_tool_def getitem_def subprocess_run_def
        read_clock_def dict_get_default_def)
qed

lemma planned_state_is_planned:
  "plan_tasks (initial_state ''Scan example.com for open ports and discover directories''
     [''example.com'']) = Inr planned_state"
  by (simp add: plan_tasks_def initial_state_def getitem_def first_def py_lower_def lower_char_def
      planned_state_def)

text \<open>
  Claim C3. The entry point is claimed to return a final state for every instruction and
  scope. For the instruction of the program's own \<^verbatim>\<open>__main__\<close> block, in an environment
  where the port scan succeeds, the \<^verbatim>\<open>execute\<close> node raises \<^verbatim>\<open>TypeError\<close>: a
  successful result stores \<^verbatim>\<open>None\<close> under \<^verbatim>\<open>"error"\<close>, and the node tests
  \<^verbatim>\<open>"Out-of-scope" in None\<close>. The exception leaves \<^verbatim>\<open>run_security_scan\<close>.
\<close>

theorem successful_scan_raises:
  "run_security_scan env_port_open
     ''Scan example.com for open ports and discover directories'' [''example.com''] world0
   = Some (Inl TypeError)"
proof -
  have "execute_task env_port_open planned_state world0 = Inl TypeError"
  proof (rule execute_task_success_raises [where tsk = "nmap_task ''example.com''"])
    show "is_within_scope ''example.com'' (scope planned_state)"
      unfolding planned_state_def by (simp only: security_state.simps in_own_scope)
  qed (simp_all add: planned_state_def nmap_task_def env_port_open_def)
  then show ?thesis
    by (simp add: run_security_scan_def invoke_Plan invoke_Execute planned_state_is_planned)
qed

text \<open>
  Claim C4. The run is claimed to reach \<^verbatim>\<open>END\<close> in finitely many steps for every
  instruction and scope. The loop does halt (\<open>invoke_total\<close>), but not always in
  \<^verbatim>\<open>END\<close>: with a port scan that succeeds, the second step raises and the graph ends
  with the exception.
\<close>

theorem run_raises_before_end:
  "steps env_port_open (Suc (Suc 0))
     (Plan, initial_state ''Scan example.com for open ports'' [''example.com''], world0)
     = Inl TypeError
   \<and> invoke env_port_open
     (Plan, initial_state ''Scan example.com for open ports'' [''example.com''], world0)
     = Some (Inl TypeError)"
  by (simp add: invoke_Plan invoke_Execute eval_defs env_port_open_def world0_def)

lemma no_keyword_plan:
  assumes "\<not> (py_in ''scan'' (py_lower instruction) \<and> py_in ''ports'' (py_lower instruction))"
    and "\<not> py_in ''directories'' (py_lower instruction)"
  shows "plan_tasks (initial_state instruction scp)
         = Inr ((initial_state instruction scp)\<lparr>current_task := Some [(''instruction'', instruction)]\<rparr>)"
  using assms by (auto simp: plan_tasks_def initial_state_def getitem_def first_def)

lemma no_keyword_run:
  assumes "\<not> (py_in ''scan'' (py_lower instruction) \<and> py_in ''ports'' (py_lower instruction))"
    and "\<not> py_in ''directories'' (py_lower instruction)"
  shows "run_security_scan e instruction scp w = Some (Inl (KeyError ''command''))"
proof -
  have "execute_task e
      ((initial_state instruction scp)\<lparr>current_task := Some [(''instruction'', instruction)]\<rparr>) w
      = Inl (KeyError ''command'')"
    by (simp add: execute_task_def execute_security_tool_def getitem_def)
  then show ?thesis
    by (simp add: run_security_scan_def invoke_Plan invoke_Execute no_keyword_plan [OF assms])
qed

text \<open>
  Claim C7. An instruction that matches no keyword is claimed to leave the task list
  empty and to end in a report of zero executed tasks. The planner keeps the seed
  \<^verbatim>\<open>{"instruction": ...}\<close> in the task list and makes it the current task; the
  \<^verbatim>\<open>execute\<close> node then subscripts it with \<^verbatim>\<open>"command"\<close> and the run ends with
  \<^verbatim>\<open>KeyError\<close>, before any report is written.
\<close>

theorem unmatched_instruction_raises:
  "plan_tasks (initial_state ''hello'' [''example.com''])
     = Inr \<lparr>task_list = [[(''instruction'', ''hello'')]], executed_tasks = [],
            scope = [''example.com''], scope_violations = [],
            current_task = Some [(''instruction'', ''hello'')], retries = 0, max_retries = 3\<rparr>
   \<and> run_security_scan env_tool_missing ''hello'' [''example.com''] world0
       = Some (Inl (KeyError ''command''))"
proof -
  have kw: "\<not> (py_in ''scan'' (py_lower ''hello'') \<and> py_in ''ports'' (py_lower ''hello''))"
    "\<not> py_in ''directories'' (py_lower ''hello'')"
    by (simp_all add: py_lower_def lower_char_def)
  show ?thesis
    by (simp add: no_keyword_plan [OF kw] no_keyword_run [OF kw]) (simp add: initial_state_def)
qed

section \<open>The retry budget\<close>

text \<open>
  Claim C5. At every point of a run \<open>retries\<close> is at most \<open>max_retries\<close>: after any
  number of steps from the initial state, and in the state the entry point returns. The
  router adds one to \<open>retries\<close> only when \<open>retries < max_retries\<close> held and it answers
  \<^verbatim>\<open>"execute"\<close>, and it answers \<^verbatim>\<open>"continue"\<close> once the budget is used up.
\<close>

theorem retries_bounded:
  "(steps e n (Plan, initial_state instruction scp, w) = Inr (nd, s, w1)
      \<longrightarrow> retries s \<le> max_retries s)
   \<and> (run_security_scan e instruction scp w = Some (Inr (s_end, w_end))
      \<longrightarrow> retries s_end \<le> max_retries s_end)
   \<and> (handle_failure s0 = Inr (s1, route)
      \<longrightarrow> (route = ''execute'' \<and> retries s0 < max_retries s0 \<and> retries s1 = retries s0 + 1)
          \<or> (route = ''continue'' \<and> retries s1 = retries s0))
   \<and> (max_retries s2 \<le> retries s2 \<longrightarrow> handle_failure s2 = Inr (s2, ''continue''))"
proof (intro conjI impI)
  have init: "retries (initial_state instruction scp) \<le> max_retries (initial_state instruction scp)"
    by (simp add: initial_state_def)
  {
    assume "steps e n (Plan, initial_state instruction scp, w) = Inr (nd, s, w1)"
    from steps_retries [OF this init] show "retries s \<le> max_retries s" .
  }
  {
    assume "run_security_scan e instruction scp w = Some (Inr (s_end, w_end))"
    then obtain w2 where "invoke e (Plan, initial_state instruction scp, w) = Some (Inr (s_end, w2))"
      by (auto simp: run_security_scan_def split: option.splits sum.splits prod.splits)
    from invoke_steps [OF this]
    obtain k where "steps e k (Plan, initial_state instruction scp, w) = Inr (End, s_end, w2)" ..
    from steps_retries [OF this init] show "retries s_end \<le> max_retries s_end" .
  }
  {
    assume "handle_failure s0 = Inr (s1, route)"
    from handle_failure_route [OF this]
    show "(route = ''execute'' \<and> retries s0 < max_retries s0 \<and> retries s1 = retries s0 + 1)
          \<or> (route = ''continue'' \<and> retries s1 = retries s0)"
      by auto
  }
  {
    assume "max_retries s2 \<le> retries s2"
    then show "handle_failure s2 = Inr (s2, ''continue'')"
      by (simp add: handle_failure_def)
  }
qed

theorem retries_bounded_witness:
  "retries failed_scan_state \<le> max_retries failed_scan_state
   \<and> retries (failed_scan_state\<lparr>retries := 0\<rparr>) < max_retries (failed_scan_state\<lparr>retries := 0\<rparr>)
   \<and> handle_failure failed_scan_state = Inr (failed_scan_state, ''continue'')"
proof -
  obtain w2 where rep: "generate_audit_reports env_tool_missing failed_scan_state failed_scan_world = Inr w2"
    using failed_scan_report by blast
  have run: "run_security_scan env_tool_missing ''scan ports'' [''example.com''] world0
      = Some (Inr (failed_scan_state, w2))"
    by (simp add: run_security_scan_def failed_scan_invoke rep)
  have route: "handle_failure (failed_scan_state\<lparr>retries := 0\<rparr>)
      = Inr (failed_scan_state\<lparr>retries := 1\<rparr>, ''execute'')"
    by (simp add: handle_failure_def failed_scan_state_def failed_nmap_result_def last_result_def
        dict_get_def getitem_def nmap_task_def)
  have spent: "max_retries failed_scan_state \<le> retries failed_scan_state"
    by (simp add: failed_scan_state_def)
  note inst = retries_bounded [where e = env_tool_missing and instruction = "''scan ports''"
      and scp = "[''example.com'']" and w = world0
      and n = "Suc (Suc (Suc (Suc (Suc (Suc (Suc (Suc (Suc 0))))))))"
      and nd = End and s = failed_scan_state and ?w1.0 = failed_scan_world
      and s_end = failed_scan_state and w_end = w2
      and ?s0.0 = "failed_scan_state\<lparr>retries := 0\<rparr>"
      and ?s1.0 = "failed_scan_state\<lparr>retries := 1\<rparr>" and route = "''execute''"
      and ?s2.0 = failed_scan_state]
  from inst failed_scan_steps have "retries failed_scan_state \<le> max_retries failed_scan_state"
    by blast
  moreover from inst route
  have "retries (failed_scan_state\<lparr>retries := 0\<rparr>) < max_retries (failed_scan_state\<lparr>retries := 0\<rparr>)"
    by simp
  moreover from inst spent have "handle_failure failed_scan_state = Inr (failed_scan_state, ''continue'')"
    by blast
  ultimately show ?thesis
    using run by blast
qed

section \<open>Consumption of executed tasks\<close>


lemma execute_task_keeps_pending:
  assumes "execute_task e s w = Inr (s1, w1)"
    and "tsk \<in> set (task_list s)" and "map_of tsk ''status'' = Some ''pending''"
  shows "tsk \<in> set (task_list s1)"
proof (cases "current_task s = None \<or> current_task s = Some []")
  case True
  with assms show ?thesis
    by (auto simp: execute_task_def)
next
  case False
  with assms(1) obtain ps where "pending_tasks (task_list s) = Inr ps" and "task_list s1 = ps"
    by (auto simp: execute_task_def Let_def
        split: option.splits if_splits sum.splits prod.splits)
  with pending_tasks_filter [of "task_list s" ps] assms(2,3) show ?thesis
    by simp
qed

section \<open>The analyzer\<close>

text \<open>Every result the tool runner returns stores a string under \<^verbatim>\<open>"output"\<close> or has
  no such key.\<close>

lemma tool_result_output:
  "execute_security_tool e tsk scp w = Inr (r, w1) \<Longrightarrow> map_of r ''output'' \<noteq> Some None"
  by (auto simp: execute_security_tool_def getitem_def read_clock_def subprocess_run_def
      split: sum.splits if_splits proc_outcome.splits)

text \<open>
  Claim C8. The analyzer looks at the most recent execution result only, the last element
  \<open>r\<close> of \<open>executed_tasks\<close>. It appends one pending directory-discovery task for
  \<^verbatim>\<open>scope[0]\<close> when the tool of \<open>r\<close> is \<^verbatim>\<open>nmap\<close>, its status is \<^verbatim>\<open>success\<close> and its
  output contains \<^verbatim>\<open>80\<close> or \<^verbatim>\<open>443\<close>, and it returns the state unchanged when the tool
  is another one, when the status is not \<^verbatim>\<open>success\<close>, when the output has neither
  substring or is missing, and when nothing has been executed. Earlier results play no
  part. The append needs a first scope entry; a successful port scan that stores
  \<^verbatim>\<open>None\<close> as its output, which the tool runner never returns, is left out.
\<close>

theorem analyzer_rule:
  "(executed_tasks s = [] \<longrightarrow> analyze_and_update s = Inr s)
   \<and> (executed_tasks s = rs @ [r] \<longrightarrow>
        (map_of r ''tool'' = Some (Some ''nmap'')
           \<and> map_of r ''status'' = Some (Some ''success'')
           \<and> map_of r ''output'' = Some (Some out)
           \<and> ((\<exists>u v. out = u @ ''80'' @ v) \<or> (\<exists>u v. out = u @ ''443'' @ v))
           \<and> scope s = target # others
         \<longrightarrow> analyze_and_update s =
               Inr (s\<lparr>task_list := task_list s @
                      [[(''tool'', ''gobuster''),
                        (''command'', ''gobuster dir -u http://'' @ target @ '' -w common.txt''),
                        (''target'', target), (''status'', ''pending'')]]\<rparr>))
      \<and> (map_of r ''tool'' \<noteq> Some (Some ''nmap'') \<longrightarrow> analyze_and_update s = Inr s)
      \<and> (map_of r ''status'' \<noteq> Some (Some ''success'') \<longrightarrow> analyze_and_update s = Inr s)
      \<and> (map_of r ''output'' = None \<longrightarrow> analyze_and_update s = Inr s)
      \<and> (map_of r ''output'' = Some (Some out)
           \<and> \<not> ((\<exists>u v. out = u @ ''80'' @ v) \<or> (\<exists>u v. out = u @ ''443'' @ v))
         \<longrightarrow> analyze_and_update s = Inr s))"
proof (intro conjI impI)
  assume "executed_tasks s = []"
  then show "analyze_and_update s = Inr s"
    by (simp add: analyze_and_update_def last_result_def dict_get_def)
next
  assume ex: "executed_tasks s = rs @ [r]"
  then have lr: "last_result s = r"
    by (simp add: last_result_def)
  have empty: "\<not> py_in ''80'' []" "\<not> py_in ''443'' []"
    by simp_all
  {
    assume "map_of r ''tool'' = Some (Some ''nmap'')
           \<and> map_of r ''status'' = Some (Some ''success'')
           \<and> map_of r ''output'' = Some (Some out)
           \<and> ((\<exists>u v. out = u @ ''80'' @ v) \<or> (\<exists>u v. out = u @ ''443'' @ v))
           \<and> scope s = target # others"
    then show "analyze_and_update s =
               Inr (s\<lparr>task_list := task_list s @
                      [[(''tool'', ''gobuster''),
                        (''command'', ''gobuster dir -u http://'' @ target @ '' -w common.txt''),
                        (''target'', target), (''status'', ''pending'')]]\<rparr>)"
      unfolding py_in_iff [symmetric]
      by (simp add: analyze_and_update_def lr dict_get_def dict_get_default_def first_def
          gobuster_task_def)
  }
  {
    assume "map_of r ''tool'' \<noteq> Some (Some ''nmap'')"
    then have "dict_get r ''tool'' \<noteq> Some ''nmap''"
      by (auto simp: dict_get_def split: option.splits)
    then show "analyze_and_update s = Inr s"
      by (simp add: analyze_and_update_def lr)
  }
  {
    assume "map_of r ''status'' \<noteq> Some (Some ''success'')"
    then have "dict_get r ''status'' \<noteq> Some ''success''"
      by (auto simp: dict_get_def split: option.splits)
    then show "analyze_and_update s = Inr s"
      by (simp add: analyze_and_update_def lr)
  }
  {
    assume "map_of r ''output'' = None"
    with empty show "analyze_and_update s = Inr s"
      by (simp add: analyze_and_update_def lr dict_get_default_def)
  }
  {
    assume "map_of r ''output'' = Some (Some out)
           \<and> \<not> ((\<exists>u v. out = u @ ''80'' @ v) \<or> (\<exists>u v. out = u @ ''443'' @ v))"
    then show "analyze_and_update s = Inr s"
      unfolding py_in_iff [symmetric]
      by (simp add: analyze_and_update_def lr dict_get_default_def)
  }
qed

theorem analyzer_rule_witness:
  "analyze_and_update port_open_state
     = Inr (port_open_state\<lparr>task_list :=
              [nmap_task ''example.com'',
               [(''tool'', ''gobuster''),
                (''command'', ''gobuster dir -u http://example.com -w common.txt''),
                (''target'', ''example.com''), (''status'', ''pending'')]]\<rparr>)
   \<and> analyze_and_update stale_port_state = Inr stale_port_state
   \<and> analyze_and_update planned_state = Inr planned_state"
proof -
  have "py_in ''443'' ''443/tcp open https''"
    by simp
  then have found: "\<exists>u v. ''443/tcp open https'' = u @ ''443'' @ v"
    by (simp only: py_in_iff)
  have last1: "executed_tasks port_open_state
      = [failed_nmap_result ''2024-05-01 10:00:00''] @ [port_open_result]"
    by (simp add: port_open_state_def)
  have hit: "map_of port_open_result ''tool'' = Some (Some ''nmap'')
      \<and> map_of port_open_result ''status'' = Some (Some ''success'')
      \<and> map_of port_open_result ''output'' = Some (Some ''443/tcp open https'')
      \<and> ((\<exists>u v. ''443/tcp open https'' = u @ ''80'' @ v)
          \<or> (\<exists>u v. ''443/tcp open https'' = u @ ''443'' @ v))
      \<and> scope port_open_state = ''example.com'' # []"
    using found by (simp add: port_open_result_def port_open_state_def)
  from analyzer_rule [where s = port_open_state
      and rs = "[failed_nmap_result ''2024-05-01 10:00:00'']" and r = port_open_result
      and out = "''443/tcp open https''" and target = "''example.com''" and others = "[]"]
    last1 hit
  have "analyze_and_update port_open_state =
      Inr (port_open_state\<lparr>task_list := task_list port_open_state @
             [[(''tool'', ''gobuster''),
               (''command'', ''gobuster dir -u http://'' @ ''example.com'' @ '' -w common.txt''),
               (''target'', ''example.com''), (''status'', ''pending'')]]\<rparr>)"
    by blast
  then have appended: "analyze_and_update port_open_state
     = Inr (port_open_state\<lparr>task_list :=
              [nmap_task ''example.com'',
               [(''tool'', ''gobuster''),
                (''command'', ''gobuster dir -u http://example.com -w common.txt''),
                (''target'', ''example.com''), (''status'', ''pending'')]]\<rparr>)"
    by (simp add: port_open_state_def)
  have last2: "executed_tasks stale_port_state = [port_open_result] @ [failed_gobuster_result]"
    by (simp add: stale_port_state_def)
  have other: "map_of failed_gobuster_result ''tool'' \<noteq> Some (Some ''nmap'')"
    by (simp add: failed_gobuster_result_def)
  from analyzer_rule [where s = stale_port_state and rs = "[port_open_result]"
      and r = failed_gobuster_result] last2 other
  have stale: "analyze_and_update stale_port_state = Inr stale_port_state"
    by blast
  have "executed_tasks planned_state = []"
    by (simp add: planned_state_def)
  with analyzer_rule [where s = planned_state]
  have "analyze_and_update planned_state = Inr planned_state"
    by blast
  with appended stale show ?thesis
    by (intro conjI)
qed

section \<open>Building the report twice\<close>

text \<open>
  Claim C9, as stated: two calls of the report builder on the same final state write
  byte-identical JSON reports. Each call stamps the report with its own reading of the
  clock: on the final state of the failing run the two reports differ.
\<close>

theorem report_timestamps_differ:
  "first_report env_tool_missing failed_scan_state failed_scan_world
   \<noteq> second_report env_tool_missing failed_scan_state failed_scan_world"
proof -
  from dumps_audit_report [of failed_scan_state]
  obtain rest where rest: "\<And>ts. dumps 0 (audit_report ts failed_scan_state)
     = ''{'' @ newline_indent (Suc 0) @ json_string ''timestamp'' @ '': '' @ json_string ts @ rest"
    by blast
  have clock: "now env_tool_missing (clock_reads failed_scan_world) = ''2024-05-01 10:00:04''"
    "now env_tool_missing (Suc (clock_reads failed_scan_world)) = ''2024-05-01 10:00:05''"
    by (simp_all add: env_tool_missing_def failed_scan_world_def clock_text_def)
  have "json_string ''2024-05-01 10:00:04'' \<noteq> json_string ''2024-05-01 10:00:05''"
    by (simp add: json_string_def json_escape_def)
  then show ?thesis
    using report_texts [OF failed_scan_first_report]
    by (simp add: rest clock)
qed

text \<open>
  Claim C9, amended. When the first call does not raise, the second does not either, and
  the two JSON reports are the same text except for the value of the \<^verbatim>\<open>timestamp\<close>
  field, which is each call's reading of the clock; they are identical when both readings
  are the same.
\<close>

theorem reports_agree_up_to_timestamp:
  assumes "first_report e s w \<noteq> None"
  shows "\<exists>rest.
      first_report e s w
        = Some (''{'' @ newline_indent (Suc 0) @ json_string ''timestamp'' @ '': ''
                @ json_string (now e (clock_reads w)) @ rest)
      \<and> second_report e s w
        = Some (''{'' @ newline_indent (Suc 0) @ json_string ''timestamp'' @ '': ''
                @ json_string (now e (Suc (clock_reads w))) @ rest)
      \<and> (now e (Suc (clock_reads w)) = now e (clock_reads w)
           \<longrightarrow> second_report e s w = first_report e s w)"
proof -
  from dumps_audit_report [of s] obtain rest where rest: "\<And>ts. dumps 0 (audit_report ts s)
     = ''{'' @ newline_indent (Suc 0) @ json_string ''timestamp'' @ '': '' @ json_string ts @ rest"
    by blast
  show ?thesis
    using report_texts [OF assms] by (intro exI [of _ rest]) (simp add: rest)
qed

theorem reports_agree_up_to_timestamp_witness:
  "(\<exists>rest.
      first_report env_tool_missing failed_scan_state failed_scan_world
        = Some (''{'' @ newline_indent (Suc 0) @ json_string ''timestamp'' @ '': ''
                @ json_string ''2024-05-01 10:00:04'' @ rest)
      \<and> second_report env_tool_missing failed_scan_state failed_scan_world
        = Some (''{'' @ newline_indent (Suc 0) @ json_string ''timestamp'' @ '': ''
                @ json_string ''2024-05-01 10:00:05'' @ rest))
   \<and> second_report env_frozen_clock failed_scan_state failed_scan_world
       = first_report env_frozen_clock failed_scan_state failed_scan_world"
proof -
  have clock: "now env_tool_missing (clock_reads failed_scan_world) = ''2024-05-01 10:00:04''"
    "now env_tool_missing (Suc (clock_reads failed_scan_world)) = ''2024-05-01 10:00:05''"
    by (simp_all add: env_tool_missing_def failed_scan_world_def clock_text_def)
  have frozen: "now env_frozen_clock (Suc (clock_reads failed_scan_world))
      = now env_frozen_clock (clock_reads failed_scan_world)"
    by (simp add: env_frozen_clock_def)
  from reports_agree_up_to_timestamp [OF failed_scan_first_report,
      of env_tool_missing failed_scan_world]
  have moving: "\<exists>rest.
      first_report env_tool_missing failed_scan_state failed_scan_world
        = Some (''{'' @ newline_indent (Suc 0) @ json_string ''timestamp'' @ '': ''
                @ json_string ''2024-05-01 10:00:04'' @ rest)
      \<and> second_report env_tool_missing failed_scan_state failed_scan_world
        = Some (''{'' @ newline_indent (Suc 0) @ json_string ''timestamp'' @ '': ''
                @ json_string ''2024-05-01 10:00:05'' @ rest)"
    unfolding clock by blast
  from reports_agree_up_to_timestamp [OF failed_scan_first_report,
      of env_frozen_clock failed_scan_world] frozen
  have "second_report env_frozen_clock failed_scan_state failed_scan_world
       = first_report env_frozen_clock failed_scan_state failed_scan_world"
    by blast
  with moving show ?thesis
    by (rule conjI)
qed

section \<open>The empty scope\<close>

text \<open>
  Claim C10. With an empty scope list and an instruction that matches a keyword set, the
  planner raises \<^verbatim>\<open>IndexError\<close> at \<^verbatim>\<open>state.scope[0]\<close>: the first step of the graph
  raises, so the scope guard is never reached, and the entry point returns no state. An
  instruction that contains the lower-case keywords literally matches them
  (\<open>py_in_lower\<close>).
\<close>

theorem empty_scope_raises:
  assumes "(py_in ''scan'' (py_lower instruction) \<and> py_in ''ports'' (py_lower instruction))
           \<or> py_in ''directories'' (py_lower instruction)"
  shows "plan_tasks (initial_state instruction []) = Inl IndexError
         \<and> step e (Plan, initial_state instruction [], w) = Inl IndexError
         \<and> run_security_scan e instruction [] w = Some (Inl IndexError)"
proof -
  from assms have "plan_tasks (initial_state instruction []) = Inl IndexError"
    by (auto simp: plan_tasks_def initial_state_def getitem_def first_def)
  then show ?thesis
    by (simp add: run_security_scan_def invoke_Plan)
qed

theorem empty_scope_raises_witness:
  "plan_tasks (initial_state ''Scan PORTS'' []) = Inl IndexError
   \<and> step env_port_open (Plan, initial_state ''Scan PORTS'' [], world0) = Inl IndexError
   \<and> run_security_scan env_port_open ''Scan PORTS'' [] world0 = Some (Inl IndexError)"
proof -
  have "(py_in ''scan'' (py_lower ''Scan PORTS'') \<and> py_in ''ports'' (py_lower ''Scan PORTS''))
        \<or> py_in ''directories'' (py_lower ''Scan PORTS'')"
    by (simp add: py_lower_def lower_char_def)
  then show ?thesis
    by (rule empty_scope_raises)
qed

end
